theory Spec2Isabelle
  imports Main
begin

section \<open>Text operations of the sources\<close>

text \<open>
  The add-on handles decoded text (Python \<open>str\<close>). A character of the text is modelled as
  one \<open>char\<close>, that is a code point below 256; in that range the regular expression class
  \<open>\d\<close> is exactly the ten ASCII digits.
\<close>

definition is_digit :: "char \<Rightarrow> bool" where
  "is_digit c = (c \<in> set ''0123456789'')"

text \<open>\<open>str.splitlines()\<close>: the line boundaries below code point 256.\<close>

definition is_linebreak :: "char \<Rightarrow> bool" where
  "is_linebreak c = (c \<in> set [CHR 0x0A, CHR 0x0D, CHR 0x0B, CHR 0x0C, CHR 0x1C, CHR 0x1D, CHR 0x1E, CHR 0x85])"

fun splitlines_from :: "string \<Rightarrow> string \<Rightarrow> string list" where
  "splitlines_from cur [] = (if cur = [] then [] else [cur])"
| "splitlines_from cur [c] = (if is_linebreak c then [cur] else [cur @ [c]])"
| "splitlines_from cur (c # d # cs) =
     (if c = CHR 0x0D \<and> d = CHR 0x0A then cur # splitlines_from [] cs
      else if is_linebreak c then cur # splitlines_from [] (d # cs)
      else splitlines_from (cur @ [c]) (d # cs))"

definition splitlines :: "string \<Rightarrow> string list" where
  "splitlines s = splitlines_from [] s"

text \<open>\<open>str.split(" ")\<close>: every single separator cuts, empty pieces are kept.\<close>

fun split_from :: "char \<Rightarrow> string \<Rightarrow> string \<Rightarrow> string list" where
  "split_from sep cur [] = [cur]"
| "split_from sep cur (c # cs) =
     (if c = sep then cur # split_from sep [] cs else split_from sep (cur @ [c]) cs)"

definition split_sp :: "string \<Rightarrow> string list" where
  "split_sp s = split_from CHR '' '' [] s"

text \<open>\<open>str.rstrip()\<close>: trailing whitespace removed.\<close>

definition is_space :: "char \<Rightarrow> bool" where
  "is_space c = (c \<in> set [CHR 0x09, CHR 0x0A, CHR 0x0B, CHR 0x0C, CHR 0x0D, CHR 0x1C, CHR 0x1D,
                              CHR 0x1E, CHR 0x1F, CHR 0x20, CHR 0x85, CHR 0xA0])"

definition rstrip :: "string \<Rightarrow> string" where
  "rstrip s = rev (dropWhile is_space (rev s))"

text \<open>\<open>str.lower()\<close> on code points below 256.\<close>

definition lower_char :: "char \<Rightarrow> char" where
  "lower_char c =
     (let n = (of_char c :: nat)
      in if (65 \<le> n \<and> n \<le> 90) \<or> (192 \<le> n \<and> n \<le> 222 \<and> n \<noteq> 215) then char_of (n + 32) else c)"

definition lower :: "string \<Rightarrow> string" where
  "lower s = map lower_char s"

text \<open>The \<open>in\<close> operator on strings, and \<open>re.search\<close> of a pattern without metacharacters.\<close>

definition starts_with :: "string \<Rightarrow> string \<Rightarrow> bool" where
  "starts_with pre s = (take (length pre) s = pre)"

fun contains :: "string \<Rightarrow> string \<Rightarrow> bool" where
  "contains [] sub = (sub = [])"
| "contains (c # cs) sub = (starts_with sub (c # cs) \<or> contains cs sub)"

text \<open>
  \<open>re.search('^\d+\.', game)\<close>: anchored at the start of the string, a greedy run of at
  least one digit, then a literal period. Giving back digits cannot help the match, since
  the period is not a digit.
\<close>

definition search_game_entry :: "string \<Rightarrow> bool" where
  "search_game_entry game =
     (takeWhile is_digit game \<noteq> [] \<and>
      (case dropWhile is_digit game of [] \<Rightarrow> False | c # _ \<Rightarrow> c = CHR ''.''))"

text \<open>The list comprehension of \<open>load_installed_games\<close>.\<close>

definition gamelist_of :: "string \<Rightarrow> string list" where
  "gamelist_of result = filter search_game_entry (splitlines result)"

text \<open>
  \<open>re.search(r"Please enter the following PIN on the target PC: (\d+)", stdout)\<close>: the
  leftmost position where the literal text is followed by a digit; group 1 is the greedy
  run of digits there.
\<close>

definition pin_prefix :: string where
  "pin_prefix = ''Please enter the following PIN on the target PC: ''"

fun search_pin :: "string \<Rightarrow> string option" where
  "search_pin [] = None"
| "search_pin (c # cs) =
     (if starts_with pin_prefix (c # cs) \<and> takeWhile is_digit (drop (length pin_prefix) (c # cs)) \<noteq> []
      then Some (takeWhile is_digit (drop (length pin_prefix) (c # cs)))
      else search_pin cs)"

definition already_paired :: string where
  "already_paired = ''Failed to pair to server: Already paired''"

section \<open>The environment: child processes, the progress dialog, the user\<close>

text \<open>
  Everything the add-on does to its surroundings is recorded, in order, in a log of events.
\<close>

datatype event =
    Ran "string list"             \<comment> \<open>\<open>subprocess.check_output(cmd)\<close>: started and waited for\<close>
  | Started "string list" bool    \<comment> \<open>\<open>subprocess.Popen(cmd)\<close>; the flag: stdout made non-blocking\<close>
  | Waited "string list"          \<comment> \<open>\<open>proc.communicate()\<close> returned: the child has exited\<close>
  | Terminate "string list"       \<comment> \<open>\<open>proc.terminate()\<close>\<close>
  | HostCheck                     \<comment> \<open>\<open>host_check()\<close>\<close>
  | YesNo string string           \<comment> \<open>\<open>xbmcgui.Dialog().yesno(heading, message)\<close>\<close>
  | OkDialog string string        \<comment> \<open>\<open>xbmcgui.Dialog().ok(heading, message)\<close>\<close>
  | Create string string          \<comment> \<open>\<open>pDialog.create(heading, message)\<close>\<close>
  | Update int string             \<comment> \<open>\<open>pDialog.update(percent, message)\<close>\<close>
  | Close                         \<comment> \<open>\<open>pDialog.close()\<close>\<close>
  | Sleep nat                     \<comment> \<open>\<open>time.sleep(seconds)\<close>\<close>

text \<open>
  A child process, as the add-on can observe it: \<open>poll()\<close> answers \<open>None\<close> to its first
  \<open>exits_after\<close> calls and the exit code from then on (\<open>exits_after = None\<close>: the child
  never exits); \<open>reads k\<close> is what the \<open>k\<close>-th \<open>proc.stdout.read().decode()\<close> gives, \<open>None\<close>
  when it raises (no data on the non-blocking pipe, or bytes that do not decode);
  \<open>final_output\<close> is \<open>proc.communicate()[0].decode()\<close>, \<open>None\<close> when that raises.
\<close>

record process =
  exits_after :: "nat option"
  returncode :: int
  reads :: "nat \<Rightarrow> string option"
  final_output :: "string option"

type_synonym handle = "string list \<times> process"

text \<open>
  The surroundings of one run. \<open>run_blocking cmd\<close> is the exit code and the output of a
  command run to completion; \<open>spawn cmd\<close> is the child that \<open>Popen\<close> starts for a command;
  \<open>host_found\<close> is the answer of \<open>host_check()\<close> of the module \<open>avahi\<close>, which is not part of
  the sources at hand; \<open>yesno_answer\<close> is the user's answer to a yes/no dialog. The
  progress dialog stays cancelled once the user has cancelled it: \<open>iscanceled()\<close> answers
  \<open>False\<close> to its first \<open>cancelled_from\<close> calls and \<open>True\<close> from then on
  (\<open>cancelled_from = None\<close>: the user never cancels).
\<close>

record env =
  run_blocking :: "string list \<Rightarrow> int \<times> string"
  spawn :: "string list \<Rightarrow> process"
  host_found :: bool
  yesno_answer :: bool
  cancelled_from :: "nat option"

text \<open>
  The state that the calls change: how often the child was polled, the dialog was asked
  for cancellation and the pipe was read, the attribute \<open>proc.returncode\<close>, and the log.
\<close>

record world =
  polls :: nat
  cancel_checks :: nat
  read_calls :: nat
  returncode_attr :: "int option"
  log :: "event list"

definition fresh :: world where
  "fresh = \<lparr>polls = 0, cancel_checks = 0, read_calls = 0, returncode_attr = None, log = []\<rparr>"

text \<open>
  A call either returns a value in a new state, or has not returned: the loop is still
  turning when the fuel is used up, or the call blocks for ever. The state reached so far
  is kept in both cases.
\<close>

datatype 'a run = Returned 'a world | Unfinished world

fun world_of :: "'a run \<Rightarrow> world" where
  "world_of (Returned _ w) = w"
| "world_of (Unfinished w) = w"

definition emit :: "event \<Rightarrow> world \<Rightarrow> world" where
  "emit ev w = w\<lparr>log := log w @ [ev]\<rparr>"

definition running_at :: "process \<Rightarrow> nat \<Rightarrow> bool" where
  "running_at p k = (case exits_after p of None \<Rightarrow> True | Some n \<Rightarrow> k < n)"

definition cancelled_at :: "env \<Rightarrow> nat \<Rightarrow> bool" where
  "cancelled_at e k = (case cancelled_from e of None \<Rightarrow> False | Some c \<Rightarrow> c \<le> k)"

definition poll :: "process \<Rightarrow> world \<Rightarrow> int option \<times> world" where
  "poll p w =
     (if running_at p (polls w) then (None, w\<lparr>polls := Suc (polls w)\<rparr>)
      else (Some (returncode p), w\<lparr>polls := Suc (polls w), returncode_attr := Some (returncode p)\<rparr>))"

definition iscanceled :: "env \<Rightarrow> world \<Rightarrow> bool \<times> world" where
  "iscanceled e w = (cancelled_at e (cancel_checks w), w\<lparr>cancel_checks := Suc (cancel_checks w)\<rparr>)"

definition read_stdout :: "process \<Rightarrow> world \<Rightarrow> string option \<times> world" where
  "read_stdout p w = (reads p (read_calls w), w\<lparr>read_calls := Suc (read_calls w)\<rparr>)"

text \<open>
  \<open>proc.communicate()[0].decode()\<close>: waits for the child to exit, which sets
  \<open>proc.returncode\<close>; it never comes back when the child never exits.
\<close>

definition communicate :: "handle \<Rightarrow> world \<Rightarrow> (string option \<times> world) option" where
  "communicate h w =
     (case exits_after (snd h) of
        None \<Rightarrow> None
      | Some _ \<Rightarrow> Some (final_output (snd h),
                         emit (Waited (fst h)) (w\<lparr>returncode_attr := Some (returncode (snd h))\<rparr>)))"

text \<open>\<open>proc.terminate()\<close> on a process handle: the request is recorded; it does not raise.\<close>

definition terminate :: "handle \<Rightarrow> world \<Rightarrow> world" where
  "terminate h w = emit (Terminate (fst h)) w"

section \<open>utils.py\<close>

text \<open>
  \<open>subprocess_runner_blocking\<close>: \<open>check_output\<close> raises \<open>CalledProcessError\<close> exactly when
  the exit code is not 0; the handler shows the output and returns \<open>None\<close>. Commands are
  taken to be startable (the \<open>docker\<close> and \<open>bash\<close> executables exist), so that neither
  \<open>check_output\<close> nor \<open>Popen\<close> raises \<open>OSError\<close>.
\<close>

definition subprocess_runner_blocking :: "string list \<Rightarrow> string \<Rightarrow> env \<Rightarrow> world \<Rightarrow> string option \<times> world" where
  "subprocess_runner_blocking cmd desc e w =
     (case run_blocking e cmd of
        (code, out) \<Rightarrow>
          if code = 0 then (Some out, emit (Ran cmd) w)
          else (None, emit (OkDialog (''Error during '' @ desc) out) (emit (Ran cmd) w)))"

text \<open>\<open>subprocess_runner\<close>: starts the child and returns its handle; nothing waits for it.\<close>

definition subprocess_runner :: "string list \<Rightarrow> string \<Rightarrow> bool \<Rightarrow> env \<Rightarrow> world \<Rightarrow> handle \<times> world" where
  "subprocess_runner cmd desc blockio e w = ((cmd, spawn e cmd), emit (Started cmd (\<not> blockio)) w)"

definition stop_old_container :: "string \<Rightarrow> env \<Rightarrow> world \<Rightarrow> world" where
  "stop_old_container container e w =
     (case subprocess_runner_blocking (split_sp ''docker ps'') ''container check'' e w of
        (check, w1) \<Rightarrow>
          (case check of
             None \<Rightarrow> w1
           | Some listing \<Rightarrow>
               if listing \<noteq> [] \<and> contains listing container
               then snd (subprocess_runner (split_sp (''docker container stop '' @ container))
                           ''stop container'' True e w1)
               else w1))"

text \<open>
  The loop of \<open>wait_or_cancel\<close>. The fuel bounds the number of times the loop condition is
  evaluated. The condition is \<open>proc and proc.poll() is None and not pDialog.iscanceled()\<close>,
  evaluated from left to right.
\<close>

fun wait_loop :: "nat \<Rightarrow> handle option \<Rightarrow> string \<Rightarrow> env \<Rightarrow> world \<Rightarrow> unit run" where
  "wait_loop 0 proc message e w = Unfinished w"
| "wait_loop (Suc fuel) None message e w = Returned () w"
| "wait_loop (Suc fuel) (Some h) message e w =
     (case poll (snd h) w of
        (Some code, w1) \<Rightarrow> Returned () w1
      | (None, w1) \<Rightarrow>
          (case iscanceled e w1 of
             (True, w2) \<Rightarrow> Returned () w2
           | (False, w2) \<Rightarrow> wait_loop fuel (Some h) message e (emit (Update 50 message) w2)))"

text \<open>
  \<open>wait_or_cancel\<close>. Inside the \<open>try\<close>, a method call on \<open>proc = None\<close> raises
  \<open>AttributeError\<close> and a failing read or decode raises as well; the handler returns
  \<open>(-1, "")\<close> at once. The other paths fall through to \<open>pDialog.close()\<close>.
\<close>

definition wait_or_cancel :: "nat \<Rightarrow> handle option \<Rightarrow> string \<Rightarrow> string \<Rightarrow> env \<Rightarrow> world \<Rightarrow> (int \<times> string option) run" where
  "wait_or_cancel fuel proc title message e w =
     (case wait_loop fuel proc message e (emit (Create title []) w) of
        Unfinished w1 \<Rightarrow> Unfinished w1
      | Returned _ w1 \<Rightarrow>
          (case iscanceled e w1 of
             (False, w2) \<Rightarrow>
               (case proc of
                  None \<Rightarrow> Returned (- 1, Some []) w2
                | Some h \<Rightarrow>
                    (case communicate h w2 of
                       None \<Rightarrow> Unfinished w2
                     | Some (None, w3) \<Rightarrow> Returned (- 1, Some []) w3
                     | Some (Some msg, w3) \<Rightarrow>
                         if returncode (snd h) = 0
                         then Returned (0, Some msg) (emit Close (emit (Update 100 ''Complete!'') w3))
                         else Returned (returncode (snd h), Some msg)
                                (emit Close (emit (OkDialog (''Error during '' @ lower title) msg) w3))))
           | (True, w2) \<Rightarrow>
               (case proc of
                  None \<Rightarrow> Returned (- 1, Some []) w2
                | Some h \<Rightarrow> Returned (1, None) (emit Close (terminate h w2)))))"

section \<open>moonlight.py\<close>

definition host_check :: "env \<Rightarrow> world \<Rightarrow> bool \<times> world" where
  "host_check e w = (host_found e, emit HostCheck w)"

definition moonlight_cmd :: "string \<Rightarrow> string \<Rightarrow> string list" where
  "moonlight_cmd mode hostip =
     split_sp (rstrip (''docker run --rm -t --name moonlight_'' @ mode @
                       '' -v moonlight-home:/home/moonlight-user -v /var/run/dbus:/var/run/dbus'' @
                       '' clarkemw/moonlight-embedded-raspbian '' @ mode @ '' '' @ hostip))"

definition no_host_message :: string where
  "no_host_message = ''No Gamestream host auto-detected on local network. Check if the gamestream service is started and retry.''"

text \<open>\<open>run_moonlight\<close>: \<open>host_check()\<close> is only called when \<open>hostip\<close> is empty.\<close>

definition run_moonlight :: "string \<Rightarrow> string \<Rightarrow> bool \<Rightarrow> env \<Rightarrow> world \<Rightarrow> handle option \<times> world" where
  "run_moonlight mode hostip blockio e w =
     (let w1 = stop_old_container (''moonlight_'' @ mode) e w
      in if hostip = []
         then (case host_check e w1 of
                 (False, w2) \<Rightarrow> (None, emit (OkDialog ''Error'' no_host_message) w2)
               | (True, w2) \<Rightarrow>
                   (case subprocess_runner (moonlight_cmd mode hostip) (''moonlight '' @ mode) blockio e w2 of
                      (h, w3) \<Rightarrow> (Some h, w3)))
         else (case subprocess_runner (moonlight_cmd mode hostip) (''moonlight '' @ mode) blockio e w1 of
                 (h, w3) \<Rightarrow> (Some h, w3)))"

text \<open>
  \<open>load_installed_games\<close>: the list is only built when the status is 0 and the output is
  not empty; every other path falls off the end of the function and returns \<open>None\<close>.
\<close>

definition load_installed_games :: "nat \<Rightarrow> string \<Rightarrow> env \<Rightarrow> world \<Rightarrow> string list option run" where
  "load_installed_games fuel hostip e w =
     (case run_moonlight ''list'' hostip True e w of
        (None, w1) \<Rightarrow> Returned None w1
      | (Some h, w1) \<Rightarrow>
          (case wait_or_cancel fuel (Some h) ''List'' ''Getting available games...'' e w1 of
             Unfinished w2 \<Rightarrow> Unfinished w2
           | Returned (status, result) w2 \<Rightarrow>
               (case result of
                  None \<Rightarrow> Returned None w2
                | Some text \<Rightarrow>
                    if status = 0 \<and> text \<noteq> [] then Returned (Some (gamelist_of text)) w2
                    else Returned None w2)))"

definition pin_message :: "string \<Rightarrow> string" where
  "pin_message code = ''Please enter authentication code '' @ code @ '' on Gamestream host''"

text \<open>
  One turn of the body of the loop of \<open>pair\<close>: a read that raises leaves \<open>stdout\<close> as it
  is; the whole of \<open>stdout\<close> is searched as long as \<open>codeFlag\<close> is not set.
\<close>

definition pair_body :: "process \<Rightarrow> string \<Rightarrow> bool \<Rightarrow> world \<Rightarrow> string \<times> bool \<times> world" where
  "pair_body p stdout codeFlag w =
     (case read_stdout p w of
        (chunk, w1) \<Rightarrow>
          (let stdout1 = (case chunk of None \<Rightarrow> stdout | Some s \<Rightarrow> stdout @ s)
           in if \<not> codeFlag
              then (case search_pin stdout1 of
                      Some code \<Rightarrow> (stdout1, True, emit (Update 50 (pin_message code)) w1)
                    | None \<Rightarrow> (stdout1, codeFlag, w1))
              else (stdout1, codeFlag, w1)))"

fun pair_loop :: "nat \<Rightarrow> handle option \<Rightarrow> env \<Rightarrow> string \<Rightarrow> bool \<Rightarrow> world \<Rightarrow> (string \<times> bool) run" where
  "pair_loop 0 proc e stdout codeFlag w = Unfinished w"
| "pair_loop (Suc fuel) None e stdout codeFlag w = Returned (stdout, codeFlag) w"
| "pair_loop (Suc fuel) (Some h) e stdout codeFlag w =
     (case poll (snd h) w of
        (Some code, w1) \<Rightarrow> Returned (stdout, codeFlag) w1
      | (None, w1) \<Rightarrow>
          (case iscanceled e w1 of
             (True, w2) \<Rightarrow> Returned (stdout, codeFlag) w2
           | (False, w2) \<Rightarrow>
               (case pair_body (snd h) stdout codeFlag w2 of
                  (stdout1, codeFlag1, w3) \<Rightarrow> pair_loop fuel (Some h) e stdout1 codeFlag1 w3)))"

definition already_paired_message :: string where
  "already_paired_message = ''Gamestream credentials already exist for this host.''"

text \<open>
  What \<open>pair\<close> does once the loop is left. The test is
  \<open>proc and not pDialog.iscanceled() and proc.returncode == 0\<close>, from left to right;
  \<open>proc.terminate()\<close> on \<open>proc = None\<close> raises, and the handler passes.
\<close>

definition pair_finish :: "handle option \<Rightarrow> env \<Rightarrow> string \<Rightarrow> world \<Rightarrow> world" where
  "pair_finish proc e stdout w =
     (let w3 = (case proc of
                  None \<Rightarrow> w
                | Some h \<Rightarrow>
                    (case iscanceled e w of
                       (True, w1) \<Rightarrow> terminate h w1
                     | (False, w1) \<Rightarrow>
                         if returncode_attr w1 = Some 0
                         then emit (Sleep 3) (emit (Update 100 ''Complete!'') w1)
                         else terminate h w1));
          w4 = emit Close w3
      in if contains stdout already_paired
         then emit (OkDialog ''Pairing'' already_paired_message) w4
         else w4)"

definition pair :: "nat \<Rightarrow> string \<Rightarrow> env \<Rightarrow> world \<Rightarrow> unit run" where
  "pair fuel hostip e w =
     (let w1 = emit (YesNo ''Pairing'' ''Do you want to pair with a Gamestream host?'') w
      in if yesno_answer e
         then (case run_moonlight ''pair'' hostip False e w1 of
                 (proc, w2) \<Rightarrow>
                   (case pair_loop fuel proc e [] False (emit (Create ''Pairing'' ''Launching pairing...'') w2) of
                      Unfinished w3 \<Rightarrow> Unfinished w3
                    | Returned (stdout, codeFlag) w3 \<Rightarrow> Returned () (pair_finish proc e stdout w3)))
         else Returned () w1)"

section \<open>Observing a run\<close>

fun result_of :: "'a run \<Rightarrow> 'a option" where
  "result_of (Returned x _) = Some x"
| "result_of (Unfinished _) = None"

text \<open>
  The wording of the specification for a game-list line: the line begins with an integer,
  that is a non-empty run of digits, followed by a period.
\<close>

definition begins_with_integer_period :: "string \<Rightarrow> bool" where
  "begins_with_integer_period l =
     (\<exists>ds rest. ds \<noteq> [] \<and> list_all is_digit ds \<and> l = ds @ CHR ''.'' # rest)"

fun is_update :: "event \<Rightarrow> bool" where
  "is_update (Update _ _) = True"
| "is_update _ = False"

text \<open>The command that \<open>stop_old_container\<close> builds for a container name.\<close>

definition stop_command :: "string \<Rightarrow> string list" where
  "stop_command container = split_sp (''docker container stop '' @ container)"

text \<open>
  A command has been acknowledged within a log when something waited for it to complete:
  it was run by \<open>check_output\<close>, or \<open>communicate\<close> returned for it.
\<close>

definition acknowledged :: "string list \<Rightarrow> event list \<Rightarrow> bool" where
  "acknowledged cmd evs = (Ran cmd \<in> set evs \<or> Waited cmd \<in> set evs)"

subsection \<open>Concrete children and surroundings\<close>

text \<open>A child that exits with code 0 at the third poll and whose output is \<open>done\<close>.\<close>

definition quick_child :: process where
  "quick_child = \<lparr>exits_after = Some 2, returncode = 0, reads = (\<lambda>k. None), final_output = Some ''done''\<rparr>"

text \<open>A child whose output cannot be decoded.\<close>

definition garbled_child :: process where
  "garbled_child = \<lparr>exits_after = Some 1, returncode = 0, reads = (\<lambda>k. None), final_output = None\<rparr>"

definition pull_cmd :: "string list" where
  "pull_cmd = split_sp ''docker pull clarkemw/moonlight-embedded-raspbian''"

text \<open>A user who agrees and never cancels, on a host where \<open>moonlight_pair\<close> is listed.\<close>

definition patient_user :: env where
  "patient_user = \<lparr>run_blocking = (\<lambda>cmd. (0, ''CONTAINER ID   NAMES\<newline>0a1b2c3d4e5f   moonlight_pair'')),
                    spawn = (\<lambda>cmd. quick_child), host_found = True, yesno_answer = True,
                    cancelled_from = None\<rparr>"

text \<open>The dialog reports the cancellation from its third, respectively second, question on.\<close>

definition late_cancel :: env where
  "late_cancel = patient_user\<lparr>cancelled_from := Some 2\<rparr>"

definition early_cancel :: env where
  "early_cancel = patient_user\<lparr>cancelled_from := Some 1\<rparr>"

text \<open>
  The loop turns \<open>k\<close> times and is then left: the poll that follows reports the exit of the
  child, no question before it having been answered "cancelled"; or the question that
  follows is answered "cancelled" while the child is still running.
\<close>

definition loop_left_after :: "process \<Rightarrow> env \<Rightarrow> nat \<Rightarrow> bool" where
  "loop_left_after p e k =
     ((exits_after p = Some k \<and> (\<forall>j<k. \<not> cancelled_at e j)) \<or>
      (cancelled_from e = Some k \<and> running_at p k))"

text \<open>A pairing child whose PIN line arrives in two reads.\<close>

definition pin_child :: process where
  "pin_child = \<lparr>exits_after = Some 5, returncode = 0,
                 reads = (\<lambda>k. if k = 0 then Some ''Please enter the following PIN on the''
                               else if k = 1 then Some '' target PC: 4821\<newline>'' else None),
                 final_output = None\<rparr>"

definition pin_session :: env where
  "pin_session = patient_user\<lparr>spawn := (\<lambda>cmd. pin_child)\<rparr>"

text \<open>A pairing child that reports existing credentials and exits with code 1.\<close>

definition refused_child :: process where
  "refused_child = \<lparr>exits_after = Some 2, returncode = 1,
                     reads = (\<lambda>k. if k = 0 then Some ''Failed to pair to server: Already paired\<newline>'' else None),
                     final_output = None\<rparr>"

definition refused_session :: env where
  "refused_session = patient_user\<lparr>spawn := (\<lambda>cmd. refused_child)\<rparr>"

definition refused_exit0_session :: env where
  "refused_exit0_session = patient_user\<lparr>spawn := (\<lambda>cmd. refused_child\<lparr>returncode := 0\<rparr>)\<rparr>"

definition refused_cancelled_session :: env where
  "refused_cancelled_session = patient_user\<lparr>spawn := (\<lambda>cmd. refused_child), cancelled_from := Some 1\<rparr>"

text \<open>The updates of the dialog at 50 percent: in \<open>pair\<close>, the disclosure of the PIN.\<close>

fun is_pin_update :: "event \<Rightarrow> bool" where
  "is_pin_update (Update percent _) = (percent = 50)"
| "is_pin_update _ = False"

text \<open>
  The value of \<open>stdout\<close> in \<open>pair\<close> after \<open>d\<close> more turns of the loop, the next read being
  the \<open>i\<close>-th; \<open>accumulated p k\<close> is its value after the first \<open>k\<close> turns.
\<close>

fun accumulated_from :: "process \<Rightarrow> string \<Rightarrow> nat \<Rightarrow> nat \<Rightarrow> string" where
  "accumulated_from p stdout i 0 = stdout"
| "accumulated_from p stdout i (Suc d) =
     accumulated_from p (case reads p i of None \<Rightarrow> stdout | Some s \<Rightarrow> stdout @ s) (Suc i) d"

definition accumulated :: "process \<Rightarrow> nat \<Rightarrow> string" where
  "accumulated p k = accumulated_from p [] 0 k"

text \<open>A listing child whose output is the game list of the specification's example.\<close>

definition listing_text :: string where
  "listing_text = ''====\<newline>Searching...\<newline>1. MarioKart8\<newline>2. Dolphin\<newline>garbage''"

definition listing_child :: process where
  "listing_child = \<lparr>exits_after = Some 2, returncode = 0, reads = (\<lambda>k. None),
                     final_output = Some listing_text\<rparr>"

definition list_session :: env where
  "list_session = patient_user\<lparr>spawn := (\<lambda>cmd. listing_child)\<rparr>"

section \<open>Properties of the game list\<close>

lemma period_not_digit: "\<not> is_digit CHR ''.''"
  by (simp add: is_digit_def)

lemma search_game_entry_iff: "search_game_entry l = begins_with_integer_period l"
proof
  assume a: "search_game_entry l"
  then obtain rest where r: "dropWhile is_digit l = CHR ''.'' # rest"
    by (auto simp: search_game_entry_def split: list.splits)
  have "l = takeWhile is_digit l @ CHR ''.'' # rest"
    using r takeWhile_dropWhile_id [of is_digit l] by simp
  moreover have "list_all is_digit (takeWhile is_digit l)"
    by (auto simp: list_all_iff dest: set_takeWhileD)
  moreover have "takeWhile is_digit l \<noteq> []"
    using a by (simp add: search_game_entry_def)
  ultimately show "begins_with_integer_period l"
    unfolding begins_with_integer_period_def by blast
next
  assume "begins_with_integer_period l"
  then obtain ds rest where d: "ds \<noteq> []" "list_all is_digit ds" "l = ds @ CHR ''.'' # rest"
    unfolding begins_with_integer_period_def by blast
  have all: "\<forall>c\<in>set ds. is_digit c"
    using d(2) by (simp add: list_all_iff)
  have "takeWhile is_digit l = ds"
    using all d(3) period_not_digit by (simp add: takeWhile_append2)
  moreover have "dropWhile is_digit l = CHR ''.'' # rest"
    using all d(3) period_not_digit by (simp add: dropWhile_append2)
  ultimately show "search_game_entry l"
    using d(1) by (simp add: search_game_entry_def)
qed

lemma search_game_entry_eq: "search_game_entry = begins_with_integer_period"
  by (rule ext) (rule search_game_entry_iff)

section \<open>Properties of \<open>wait_or_cancel\<close> and \<open>stop_old_container\<close>\<close>

lemma running_at_mono: "running_at p k \<Longrightarrow> j \<le> k \<Longrightarrow> running_at p j"
  by (auto simp: running_at_def split: option.splits)

lemma cancelled_at_mono: "cancelled_at e j \<Longrightarrow> j \<le> k \<Longrightarrow> cancelled_at e k"
  by (auto simp: cancelled_at_def split: option.splits)

lemma wait_loop_exit:
  assumes "exits_after p = Some (polls w + d)"
    and "\<forall>k<d. \<not> cancelled_at e (cancel_checks w + k)"
    and "d < fuel"
  shows "wait_loop fuel (Some (cmd, p)) message e w =
           Returned () (w\<lparr>polls := Suc (polls w + d), cancel_checks := cancel_checks w + d,
                          returncode_attr := Some (returncode p),
                          log := log w @ replicate d (Update 50 message)\<rparr>)"
  using assms
proof (induction d arbitrary: w fuel)
  case 0
  then obtain f where f: "fuel = Suc f" by (cases fuel) auto
  show ?case using 0 by (simp add: f poll_def running_at_def)
next
  case (Suc d)
  then obtain f where f: "fuel = Suc f" and df: "d < f" by (cases fuel) auto
  let ?w = "emit (Update 50 message) (w\<lparr>polls := Suc (polls w), cancel_checks := Suc (cancel_checks w)\<rparr>)"
  have nc: "\<not> cancelled_at e (cancel_checks w)" using Suc.prems(2) by force
  have step: "wait_loop fuel (Some (cmd, p)) message e w = wait_loop f (Some (cmd, p)) message e ?w"
    using Suc.prems(1) nc by (simp add: f poll_def running_at_def iscanceled_def)
  have a: "exits_after p = Some (polls ?w + d)" using Suc.prems(1) by (simp add: emit_def)
  have b: "\<forall>k<d. \<not> cancelled_at e (cancel_checks ?w + k)"
  proof (intro allI impI)
    fix k assume "k < d"
    then have "Suc k < Suc d" by simp
    then have "\<not> cancelled_at e (cancel_checks w + Suc k)" using Suc.prems(2) by blast
    then show "\<not> cancelled_at e (cancel_checks ?w + k)" by (simp add: emit_def)
  qed
  show ?case
    unfolding step Suc.IH [OF a b df]
    by (simp add: emit_def replicate_app_Cons_same)
qed

lemma wait_loop_cancel:
  assumes "cancelled_from e = Some (cancel_checks w + d)"
    and "running_at p (polls w + d)"
    and "d < fuel"
  shows "wait_loop fuel (Some (cmd, p)) message e w =
           Returned () (w\<lparr>polls := Suc (polls w + d), cancel_checks := Suc (cancel_checks w + d),
                          log := log w @ replicate d (Update 50 message)\<rparr>)"
  using assms
proof (induction d arbitrary: w fuel)
  case 0
  then obtain f where f: "fuel = Suc f" by (cases fuel) auto
  show ?case using 0 by (simp add: f poll_def iscanceled_def cancelled_at_def)
next
  case (Suc d)
  then obtain f where f: "fuel = Suc f" and df: "d < f" by (cases fuel) auto
  let ?w = "emit (Update 50 message) (w\<lparr>polls := Suc (polls w), cancel_checks := Suc (cancel_checks w)\<rparr>)"
  have r: "running_at p (polls w)" using Suc.prems(2) by (rule running_at_mono) simp
  have step: "wait_loop fuel (Some (cmd, p)) message e w = wait_loop f (Some (cmd, p)) message e ?w"
    using Suc.prems(1) r by (simp add: f poll_def iscanceled_def cancelled_at_def)
  have a: "cancelled_from e = Some (cancel_checks ?w + d)" using Suc.prems(1) by (simp add: emit_def)
  have b: "running_at p (polls ?w + d)" using Suc.prems(2) by (simp add: emit_def)
  show ?case
    unfolding step Suc.IH [OF a b df]
    by (simp add: emit_def replicate_app_Cons_same)
qed


lemma wait_or_cancel_exit:
  assumes "exits_after p = Some n"
    and "\<forall>k<n. \<not> cancelled_at e k"
    and "n < fuel"
  shows "wait_or_cancel fuel (Some (cmd, p)) title message e fresh =
           (if cancelled_at e n
            then Returned (1, None)
                   \<lparr>polls = Suc n, cancel_checks = Suc n, read_calls = 0,
                      returncode_attr = Some (returncode p),
                      log = Create title [] # replicate n (Update 50 message) @ [Terminate cmd, Close]\<rparr>
            else case final_output p of
                   None \<Rightarrow> Returned (- 1, Some [])
                     \<lparr>polls = Suc n, cancel_checks = Suc n, read_calls = 0,
                        returncode_attr = Some (returncode p),
                        log = Create title [] # replicate n (Update 50 message) @ [Waited cmd]\<rparr>
                 | Some msg \<Rightarrow>
                     if returncode p = 0
                     then Returned (0, Some msg)
                       \<lparr>polls = Suc n, cancel_checks = Suc n, read_calls = 0,
                          returncode_attr = Some 0,
                          log = Create title [] # replicate n (Update 50 message)
                                  @ [Waited cmd, Update 100 ''Complete!'', Close]\<rparr>
                     else Returned (returncode p, Some msg)
                       \<lparr>polls = Suc n, cancel_checks = Suc n, read_calls = 0,
                          returncode_attr = Some (returncode p),
                          log = Create title [] # replicate n (Update 50 message)
                                  @ [Waited cmd, OkDialog (''Error during '' @ lower title) msg, Close]\<rparr>)"
proof -
  let ?w = "emit (Create title []) fresh"
  have a: "exits_after p = Some (polls ?w + n)" using assms(1) by (simp add: emit_def fresh_def)
  have b: "\<forall>k<n. \<not> cancelled_at e (cancel_checks ?w + k)" using assms(2) by (simp add: emit_def fresh_def)
  show ?thesis
    unfolding wait_or_cancel_def wait_loop_exit [OF a b assms(3)]
    using assms(1)
    by (simp add: emit_def fresh_def iscanceled_def communicate_def terminate_def split: option.splits)
qed

lemma wait_or_cancel_cancel:
  assumes "cancelled_from e = Some c"
    and "running_at p c"
    and "c < fuel"
  shows "wait_or_cancel fuel (Some (cmd, p)) title message e fresh =
           Returned (1, None)
             \<lparr>polls = Suc c, cancel_checks = Suc (Suc c), read_calls = 0, returncode_attr = None,
                log = Create title [] # replicate c (Update 50 message) @ [Terminate cmd, Close]\<rparr>"
proof -
  let ?w = "emit (Create title []) fresh"
  have a: "cancelled_from e = Some (cancel_checks ?w + c)" using assms(1) by (simp add: emit_def fresh_def)
  have b: "running_at p (polls ?w + c)" using assms(2) by (simp add: emit_def fresh_def)
  show ?thesis
    unfolding wait_or_cancel_def wait_loop_cancel [OF a b assms(3)]
    using assms(1)
    by (simp add: emit_def fresh_def iscanceled_def cancelled_at_def terminate_def)
qed

text \<open>Every return of \<open>wait_or_cancel\<close> other than \<open>(-1, "")\<close> has closed the dialog last.\<close>

lemma wait_or_cancel_closes_unless_fault:
  assumes "wait_or_cancel fuel proc title message e w = Returned r w1"
    and "r \<noteq> (- 1, Some [])"
  shows "last (log w1) = Close"
  using assms
  by (auto simp: wait_or_cancel_def emit_def terminate_def
           split: run.splits prod.splits bool.splits option.splits if_splits)

text \<open>
  Claim C3. With \<open>proc = None\<close> the loop is not entered: the only event of the
  call is the creation of the dialog. The call returns \<open>(-1, "")\<close> through the
  exception handler, and the dialog is not closed.
\<close>

theorem absent_process_skips_loop_and_close:
  "result_of (wait_or_cancel (Suc fuel) None title message e w) = Some (- 1, Some [])
   \<and> log (world_of (wait_or_cancel (Suc fuel) None title message e w)) = log w @ [Create title []]"
  by (simp add: wait_or_cancel_def iscanceled_def emit_def split: bool.splits)

text \<open>
  Claim C1. A run that takes the exception handler: the output of the child cannot be decoded,
  the call returns \<open>(-1, "")\<close>, and the dialog has not been closed.
\<close>

theorem fault_leaves_dialog_open:
  "result_of (wait_or_cancel 2 (Some (pull_cmd, garbled_child)) ''Update'' ''Running docker update...''
                patient_user fresh) = Some (- 1, Some [])
   \<and> Close \<notin> set (log (world_of (wait_or_cancel 2 (Some (pull_cmd, garbled_child)) ''Update''
                                       ''Running docker update...'' patient_user fresh)))"
proof -
  have n: "exits_after garbled_child = Some 1" by (simp add: garbled_child_def)
  have c: "\<forall>k<1. \<not> cancelled_at patient_user k" by (simp add: cancelled_at_def patient_user_def)
  have f: "(1::nat) < 2" by simp
  show ?thesis
    unfolding wait_or_cancel_exit [OF n c f]
    by (simp add: cancelled_at_def patient_user_def garbled_child_def)
qed

text \<open>
  Claim C4, as stated, fails: the loop is left because the child has exited (the third poll
  gives the exit code, and both questions asked in the loop were answered "not cancelled"),
  the question asked after the loop is answered "cancelled", and the call returns \<open>(1,
  None)\<close>.
\<close>

theorem cancel_seen_after_exit_wins:
  "result_of (wait_loop 3 (Some (pull_cmd, quick_child)) ''Running docker update...'' late_cancel
                (emit (Create ''Update'' []) fresh)) = Some ()
   \<and> returncode_attr (world_of (wait_loop 3 (Some (pull_cmd, quick_child)) ''Running docker update...'' late_cancel
                (emit (Create ''Update'' []) fresh))) = Some 0
   \<and> \<not> cancelled_at late_cancel 0 \<and> \<not> cancelled_at late_cancel 1
   \<and> result_of (wait_or_cancel 3 (Some (pull_cmd, quick_child)) ''Update'' ''Running docker update...'' late_cancel fresh)
       = Some (1, None)"
proof -
  let ?w = "emit (Create ''Update'' []) fresh"
  have n: "exits_after quick_child = Some 2" by (simp add: quick_child_def)
  have n': "exits_after quick_child = Some (polls ?w + 2)" by (simp add: quick_child_def emit_def fresh_def)
  have c: "\<forall>k<2. \<not> cancelled_at late_cancel k"
    by (simp add: cancelled_at_def late_cancel_def)
  have c': "\<forall>k<2. \<not> cancelled_at late_cancel (cancel_checks ?w + k)"
    using c by (simp add: emit_def fresh_def)
  have f: "(2::nat) < 3" by simp
  have c01: "\<not> cancelled_at late_cancel 0 \<and> \<not> cancelled_at late_cancel 1"
    by (simp add: cancelled_at_def late_cancel_def)
  show ?thesis
    unfolding wait_or_cancel_exit [OF n c f] wait_loop_exit [OF n' c' f]
    using c01 by (simp add: cancelled_at_def late_cancel_def quick_child_def)
qed

text \<open>
  Claim C4, amended. Once the loop is left because the child has exited, the dialog is asked
  once more. When that answer is "cancelled" the call takes the cancellation branch and
  returns \<open>(1, None)\<close>. When it is "not cancelled" the call takes the completion branch:
  it returns the exit code and the output when the output is read and decoded, and
  \<open>(-1, "")\<close> when reading or decoding the output raises.
\<close>

theorem outcome_after_process_exit:
  assumes "exits_after p = Some n"
    and "\<forall>k<n. \<not> cancelled_at e k"
    and "n < fuel"
  shows "result_of (wait_or_cancel fuel (Some (cmd, p)) title message e fresh) =
           Some (if cancelled_at e n then (1, None)
                 else case final_output p of
                        Some out \<Rightarrow> (returncode p, Some out)
                      | None \<Rightarrow> (- 1, Some []))"
  unfolding wait_or_cancel_exit [OF assms]
  by (simp split: option.splits)

text \<open>
  Claim C4, amended, on the three outcomes: cancelled at the question asked after the loop,
  not cancelled with a readable output, not cancelled with an output that does not decode.
\<close>

theorem outcome_after_process_exit_witness:
  "result_of (wait_or_cancel 3 (Some (pull_cmd, quick_child)) ''Update'' ''Running docker update...'' late_cancel fresh)
     = Some (1, None)
   \<and> result_of (wait_or_cancel 3 (Some (pull_cmd, quick_child)) ''Update'' ''Running docker update...'' patient_user fresh)
     = Some (0, Some ''done'')
   \<and> result_of (wait_or_cancel 2 (Some (pull_cmd, garbled_child)) ''Update'' ''Running docker update...'' patient_user fresh)
     = Some (- 1, Some [])"
proof -
  have n: "exits_after quick_child = Some 2" by (simp add: quick_child_def)
  have g: "exits_after garbled_child = Some 1" by (simp add: garbled_child_def)
  have f: "(2::nat) < 3" and f1: "(1::nat) < 2" by simp_all
  have c1: "\<forall>k<2. \<not> cancelled_at late_cancel k" by (simp add: cancelled_at_def late_cancel_def)
  have c2: "\<forall>k<2. \<not> cancelled_at patient_user k" by (simp add: cancelled_at_def patient_user_def)
  have c3: "\<forall>k<1. \<not> cancelled_at patient_user k" by (simp add: cancelled_at_def patient_user_def)
  show ?thesis
    using outcome_after_process_exit [OF n c1 f, of pull_cmd "''Update''" "''Running docker update...''"]
          outcome_after_process_exit [OF n c2 f, of pull_cmd "''Update''" "''Running docker update...''"]
          outcome_after_process_exit [OF g c3 f1, of pull_cmd "''Update''" "''Running docker update...''"]
    by (simp add: cancelled_at_def late_cancel_def patient_user_def quick_child_def garbled_child_def)
qed

text \<open>
  Claim C6. When the dialog reports the cancellation while the child is still running, the
  call returns \<open>(1, None)\<close> and \<open>terminate\<close> has been called on the
  child.
\<close>

theorem cancelled_gives_sentinel_and_terminate:
  assumes "cancelled_from e = Some c"
    and "running_at p c"
    and "c < fuel"
  shows "result_of (wait_or_cancel fuel (Some (cmd, p)) title message e fresh) = Some (1, None)
         \<and> Terminate cmd \<in> set (log (world_of (wait_or_cancel fuel (Some (cmd, p)) title message e fresh)))"
  unfolding wait_or_cancel_cancel [OF assms]
  by simp

text \<open>Claim C6 on a run cancelled at the second turn of the loop.\<close>

theorem cancelled_gives_sentinel_and_terminate_witness:
  "result_of (wait_or_cancel 2 (Some (pull_cmd, quick_child)) ''Update'' ''Running docker update...'' early_cancel fresh)
     = Some (1, None)
   \<and> Terminate pull_cmd \<in> set (log (world_of (wait_or_cancel 2 (Some (pull_cmd, quick_child)) ''Update''
                                     ''Running docker update...'' early_cancel fresh)))"
proof -
  have c: "cancelled_from early_cancel = Some 1" by (simp add: early_cancel_def)
  have r: "running_at quick_child 1" by (simp add: running_at_def quick_child_def)
  have f: "(1::nat) < 2" by simp
  show ?thesis
    using cancelled_gives_sentinel_and_terminate [OF c r f, of pull_cmd "''Update''" "''Running docker update...''"] by simp
qed




lemma stop_command_words: "stop_command n = ''docker'' # ''container'' # ''stop'' # split_sp n"
  by (simp add: stop_command_def split_sp_def)

lemma docker_ps_words: "split_sp ''docker ps'' = [''docker'', ''ps'']"
  by (simp add: split_sp_def)

lemma stop_old_container_present:
  assumes "run_blocking e (split_sp ''docker ps'') = (0, listing)"
    and "listing \<noteq> []"
    and "contains listing n"
  shows "stop_old_container n e w =
           w\<lparr>log := log w @ [Ran (split_sp ''docker ps''), Started (stop_command n) False]\<rparr>"
  using assms
  by (simp add: stop_old_container_def subprocess_runner_blocking_def subprocess_runner_def
                emit_def stop_command_def)

text \<open>
  Claim C2, amended. When the listing succeeds, is not empty and contains the name, the call
  runs the listing, starts exactly one stop command for the name and returns: nothing has
  waited for the stop command.
\<close>

theorem stop_started_not_awaited:
  assumes "run_blocking e (split_sp ''docker ps'') = (0, listing)"
    and "listing \<noteq> []"
    and "contains listing n"
  shows "log (stop_old_container n e w) = log w @ [Ran (split_sp ''docker ps''), Started (stop_command n) False]
         \<and> \<not> acknowledged (stop_command n) [Ran (split_sp ''docker ps''), Started (stop_command n) False]"
  unfolding stop_old_container_present [OF assms]
  by (simp add: acknowledged_def stop_command_words docker_ps_words)

text \<open>
  Claim C2, as stated, fails: the name is listed, and on return the stop command has not been
  acknowledged.
\<close>

theorem stop_not_acknowledged_on_return:
  "contains (snd (run_blocking patient_user (split_sp ''docker ps''))) ''moonlight_pair''
   \<and> \<not> acknowledged (stop_command ''moonlight_pair'') (log (stop_old_container ''moonlight_pair'' patient_user fresh))"
proof -
  have l: "run_blocking patient_user (split_sp ''docker ps'') = (0, ''CONTAINER ID   NAMES\<newline>0a1b2c3d4e5f   moonlight_pair'')"
    by (simp add: patient_user_def)
  have ne: "''CONTAINER ID   NAMES\<newline>0a1b2c3d4e5f   moonlight_pair'' \<noteq> []" by simp
  have c: "contains ''CONTAINER ID   NAMES\<newline>0a1b2c3d4e5f   moonlight_pair'' ''moonlight_pair''"
    by (simp add: starts_with_def)
  show ?thesis
    unfolding stop_old_container_present [OF l ne c] l
    using c by (simp add: acknowledged_def stop_command_words docker_ps_words fresh_def)
qed

text \<open>Claim C2, amended, for the container \<open>moonlight_pair\<close>.\<close>

theorem stop_started_not_awaited_witness:
  "log (stop_old_container ''moonlight_pair'' patient_user fresh)
     = [Ran [''docker'', ''ps''], Started [''docker'', ''container'', ''stop'', ''moonlight_pair''] False]"
proof -
  have l: "run_blocking patient_user (split_sp ''docker ps'') = (0, ''CONTAINER ID   NAMES\<newline>0a1b2c3d4e5f   moonlight_pair'')"
    by (simp add: patient_user_def)
  have ne: "''CONTAINER ID   NAMES\<newline>0a1b2c3d4e5f   moonlight_pair'' \<noteq> []" by simp
  have c: "contains ''CONTAINER ID   NAMES\<newline>0a1b2c3d4e5f   moonlight_pair'' ''moonlight_pair''"
    by (simp add: starts_with_def)
  show ?thesis
    using stop_started_not_awaited [OF l ne c, of fresh]
    by (simp add: stop_command_words docker_ps_words fresh_def split_sp_def)
qed

section \<open>Properties of \<open>pair\<close>\<close>

lemma pair_loop_step:
  assumes "running_at p (polls w)" and "\<not> cancelled_at e (cancel_checks w)"
  shows "pair_loop (Suc f) (Some (cmd, p)) e stdout codeFlag w =
           (case pair_body p stdout codeFlag (w\<lparr>polls := Suc (polls w), cancel_checks := Suc (cancel_checks w)\<rparr>) of
              (stdout1, codeFlag1, w3) \<Rightarrow> pair_loop f (Some (cmd, p)) e stdout1 codeFlag1 w3)"
  using assms by (simp add: poll_def iscanceled_def)

lemma pair_body_latched:
  "pair_body p stdout True w =
     (accumulated_from p stdout (read_calls w) 1, True, w\<lparr>read_calls := Suc (read_calls w)\<rparr>)"
  by (simp add: pair_body_def read_stdout_def)

lemma pair_body_no_match:
  "search_pin (accumulated_from p stdout (read_calls w) 1) = None \<Longrightarrow>
   pair_body p stdout False w =
     (accumulated_from p stdout (read_calls w) 1, False, w\<lparr>read_calls := Suc (read_calls w)\<rparr>)"
  by (simp add: pair_body_def read_stdout_def)

lemma pair_body_match:
  "search_pin (accumulated_from p stdout (read_calls w) 1) = Some c \<Longrightarrow>
   pair_body p stdout False w =
     (accumulated_from p stdout (read_calls w) 1, True,
      emit (Update 50 (pin_message c)) (w\<lparr>read_calls := Suc (read_calls w)\<rparr>))"
  by (simp add: pair_body_def read_stdout_def)

lemma pair_loop_latched:
  "log (world_of (pair_loop fuel proc e stdout True w)) = log w"
proof (induction fuel arbitrary: stdout w)
  case 0
  show ?case by simp
next
  case (Suc fuel)
  show ?case
  proof (cases proc)
    case None
    then show ?thesis by simp
  next
    case (Some h)
    obtain cmd p where h: "h = (cmd, p)" by (cases h)
    show ?thesis
    proof (cases "running_at p (polls w) \<and> \<not> cancelled_at e (cancel_checks w)")
      case True
      then have r: "running_at p (polls w)" and n: "\<not> cancelled_at e (cancel_checks w)"
        by simp_all
      show ?thesis
        unfolding Some h pair_loop_step [OF r n] pair_body_latched
        by (simp add: Suc.IH [unfolded Some h])
    next
      case False
      then show ?thesis
        unfolding Some h by (auto simp: poll_def iscanceled_def)
    qed
  qed
qed

lemma pair_loop_first_match:
  assumes "running_at p (polls w + d)"
    and "\<not> cancelled_at e (cancel_checks w + d)"
    and "search_pin (accumulated_from p stdout (read_calls w) (Suc d)) = Some c"
    and "\<forall>j<d. search_pin (accumulated_from p stdout (read_calls w) (Suc j)) = None"
    and "d < fuel"
  shows "log (world_of (pair_loop fuel (Some (cmd, p)) e stdout False w)) = log w @ [Update 50 (pin_message c)]"
  using assms
proof (induction d arbitrary: w stdout fuel)
  case 0
  then obtain f where f: "fuel = Suc f" by (cases fuel) auto
  have r: "running_at p (polls w)" and n: "\<not> cancelled_at e (cancel_checks w)"
    using 0 by simp_all
  let ?w = "w\<lparr>polls := Suc (polls w), cancel_checks := Suc (cancel_checks w)\<rparr>"
  have m: "search_pin (accumulated_from p stdout (read_calls ?w) 1) = Some c"
    using "0.prems"(3) by simp
  show ?case
    unfolding f pair_loop_step [OF r n] pair_body_match [OF m]
    by (simp add: pair_loop_latched emit_def)
next
  case (Suc d)
  then obtain f where f: "fuel = Suc f" and df: "d < f" by (cases fuel) auto
  have r: "running_at p (polls w)"
    using Suc.prems(1) by (rule running_at_mono) simp
  have n: "\<not> cancelled_at e (cancel_checks w)"
    using Suc.prems(2) cancelled_at_mono [of e "cancel_checks w" "cancel_checks w + Suc d"] by auto
  let ?w = "w\<lparr>polls := Suc (polls w), cancel_checks := Suc (cancel_checks w)\<rparr>"
  let ?s = "accumulated_from p stdout (read_calls w) 1"
  let ?w1 = "?w\<lparr>read_calls := Suc (read_calls ?w)\<rparr>"
  have "search_pin (accumulated_from p stdout (read_calls w) (Suc 0)) = None"
    using Suc.prems(4) by blast
  then have m: "search_pin (accumulated_from p stdout (read_calls ?w) 1) = None" by simp
  have a: "running_at p (polls ?w1 + d)" using Suc.prems(1) by simp
  have b: "\<not> cancelled_at e (cancel_checks ?w1 + d)" using Suc.prems(2) by simp
  have c: "search_pin (accumulated_from p (accumulated_from p stdout (read_calls ?w) 1) (read_calls ?w1) (Suc d)) = Some c"
    using Suc.prems(3) by simp
  have d: "\<forall>j<d. search_pin (accumulated_from p (accumulated_from p stdout (read_calls ?w) 1) (read_calls ?w1) (Suc j)) = None"
  proof (intro allI impI)
    fix j assume "j < d"
    then have "Suc j < Suc d" by simp
    then have "search_pin (accumulated_from p stdout (read_calls w) (Suc (Suc j))) = None"
      using Suc.prems(4) by blast
    then show "search_pin (accumulated_from p (accumulated_from p stdout (read_calls ?w) 1) (read_calls ?w1) (Suc j)) = None"
      by simp
  qed
  show ?case
    unfolding f pair_loop_step [OF r n] pair_body_no_match [OF m]
    using Suc.IH [OF a b c d df] by simp
qed


lemma pair_body_frame:
  assumes "pair_body p stdout codeFlag w = (stdout1, codeFlag1, w1)"
  shows "stdout1 = accumulated_from p stdout (read_calls w) 1 \<and> polls w1 = polls w
         \<and> cancel_checks w1 = cancel_checks w \<and> read_calls w1 = Suc (read_calls w)
         \<and> returncode_attr w1 = returncode_attr w"
  using assms
  by (auto simp: pair_body_def read_stdout_def emit_def Let_def split: option.splits if_splits)

lemma pair_body_log:
  assumes "pair_body p stdout codeFlag w = (stdout1, codeFlag1, w1)"
    and "ev \<in> set (log w1)"
  shows "ev \<in> set (log w) \<or> is_pin_update ev"
  using assms
  by (auto simp: pair_body_def read_stdout_def emit_def Let_def split: option.splits if_splits)

lemma pair_loop_exit:
  assumes "exits_after p = Some (polls w + d)"
    and "\<forall>k<d. \<not> cancelled_at e (cancel_checks w + k)"
    and "d < fuel"
  shows "\<exists>codeFlag1 w1.
           pair_loop fuel (Some (cmd, p)) e stdout codeFlag w =
             Returned (accumulated_from p stdout (read_calls w) d, codeFlag1) w1
           \<and> cancel_checks w1 = cancel_checks w + d
           \<and> returncode_attr w1 = Some (returncode p)"
  using assms
proof (induction d arbitrary: w stdout codeFlag fuel)
  case 0
  then obtain f where f: "fuel = Suc f" by (cases fuel) auto
  show ?case using 0 by (simp add: f poll_def running_at_def)
next
  case (Suc d)
  then obtain f where f: "fuel = Suc f" and df: "d < f" by (cases fuel) auto
  have r: "running_at p (polls w)" using Suc.prems(1) by (simp add: running_at_def)
  have n: "\<not> cancelled_at e (cancel_checks w)" using Suc.prems(2) by force
  let ?w = "w\<lparr>polls := Suc (polls w), cancel_checks := Suc (cancel_checks w)\<rparr>"
  obtain s1 f1 w1 where b: "pair_body p stdout codeFlag ?w = (s1, f1, w1)"
    by (cases "pair_body p stdout codeFlag ?w") auto
  note fr = pair_body_frame [OF b]
  have a1: "exits_after p = Some (polls w1 + d)" using Suc.prems(1) fr by simp
  have a2: "\<forall>k<d. \<not> cancelled_at e (cancel_checks w1 + k)"
  proof (intro allI impI)
    fix k assume "k < d"
    then have "Suc k < Suc d" by simp
    then have "\<not> cancelled_at e (cancel_checks w + Suc k)" using Suc.prems(2) by blast
    then show "\<not> cancelled_at e (cancel_checks w1 + k)" using fr by simp
  qed
  show ?case
    unfolding f pair_loop_step [OF r n] b
    using Suc.IH [OF a1 a2 df, of s1 f1] fr by simp
qed

lemma pair_loop_cancel:
  assumes "cancelled_from e = Some (cancel_checks w + d)"
    and "running_at p (polls w + d)"
    and "d < fuel"
  shows "\<exists>codeFlag1 w1.
           pair_loop fuel (Some (cmd, p)) e stdout codeFlag w =
             Returned (accumulated_from p stdout (read_calls w) d, codeFlag1) w1
           \<and> cancel_checks w1 = Suc (cancel_checks w + d)"
  using assms
proof (induction d arbitrary: w stdout codeFlag fuel)
  case 0
  then obtain f where f: "fuel = Suc f" by (cases fuel) auto
  show ?case using 0 by (simp add: f poll_def iscanceled_def cancelled_at_def)
next
  case (Suc d)
  then obtain f where f: "fuel = Suc f" and df: "d < f" by (cases fuel) auto
  have r: "running_at p (polls w)" using Suc.prems(2) by (rule running_at_mono) simp
  have n: "\<not> cancelled_at e (cancel_checks w)" using Suc.prems(1) by (simp add: cancelled_at_def)
  let ?w = "w\<lparr>polls := Suc (polls w), cancel_checks := Suc (cancel_checks w)\<rparr>"
  obtain s1 f1 w1 where b: "pair_body p stdout codeFlag ?w = (s1, f1, w1)"
    by (cases "pair_body p stdout codeFlag ?w") auto
  note fr = pair_body_frame [OF b]
  have a1: "cancelled_from e = Some (cancel_checks w1 + d)" using Suc.prems(1) fr by simp
  have a2: "running_at p (polls w1 + d)" using Suc.prems(2) fr by simp
  show ?case
    unfolding f pair_loop_step [OF r n] b
    using Suc.IH [OF a1 a2 df, of s1 f1] fr by simp
qed

lemma pair_loop_log:
  "ev \<in> set (log (world_of (pair_loop fuel proc e stdout codeFlag w))) \<Longrightarrow>
   ev \<in> set (log w) \<or> is_pin_update ev"
proof (induction fuel arbitrary: stdout codeFlag w)
  case 0
  then show ?case by simp
next
  case (Suc fuel)
  show ?case
  proof (cases proc)
    case None
    then show ?thesis using Suc.prems by simp
  next
    case (Some h)
    obtain cmd p where h: "h = (cmd, p)" by (cases h)
    show ?thesis
    proof (cases "running_at p (polls w) \<and> \<not> cancelled_at e (cancel_checks w)")
      case True
      then have r: "running_at p (polls w)" and n: "\<not> cancelled_at e (cancel_checks w)"
        by simp_all
      let ?w = "w\<lparr>polls := Suc (polls w), cancel_checks := Suc (cancel_checks w)\<rparr>"
      obtain s1 f1 w1 where b: "pair_body p stdout codeFlag ?w = (s1, f1, w1)"
        by (cases "pair_body p stdout codeFlag ?w") auto
      have "ev \<in> set (log (world_of (pair_loop fuel proc e s1 f1 w1)))"
        using Suc.prems unfolding Some h pair_loop_step [OF r n] b by simp
      then have "ev \<in> set (log w1) \<or> is_pin_update ev" by (rule Suc.IH)
      then show ?thesis using pair_body_log [OF b] by auto
    next
      case False
      then show ?thesis
        using Suc.prems unfolding Some h by (auto simp: poll_def iscanceled_def split: if_splits)
    qed
  qed
qed


lemma is_pin_update_is_update: "is_pin_update ev \<Longrightarrow> is_update ev"
  by (cases ev) auto

lemma stop_old_container_frame:
  "polls (stop_old_container n e w) = polls w \<and> cancel_checks (stop_old_container n e w) = cancel_checks w
   \<and> read_calls (stop_old_container n e w) = read_calls w
   \<and> (\<forall>ev\<in>set (log (stop_old_container n e w)). ev \<in> set (log w) \<or> \<not> is_update ev)"
  by (auto simp: stop_old_container_def subprocess_runner_blocking_def subprocess_runner_def emit_def
           split: prod.splits option.splits if_splits)

lemma run_moonlight_launched:
  assumes "hostip \<noteq> [] \<or> host_found e"
  shows "\<exists>w1. run_moonlight mode hostip blockio e w =
                 (Some (moonlight_cmd mode hostip, spawn e (moonlight_cmd mode hostip)), w1)
              \<and> polls w1 = polls w \<and> cancel_checks w1 = cancel_checks w \<and> read_calls w1 = read_calls w
              \<and> (\<forall>ev\<in>set (log w1). ev \<in> set (log w) \<or> \<not> is_update ev)"
  using assms stop_old_container_frame [of "''moonlight_'' @ mode" e w]
  by (auto simp: run_moonlight_def Let_def host_check_def subprocess_runner_def emit_def)

lemma pair_finish_last:
  "contains stdout already_paired \<Longrightarrow>
   last (log (pair_finish proc e stdout w)) = OkDialog ''Pairing'' already_paired_message"
  by (simp add: pair_finish_def Let_def emit_def)

lemma pair_finish_pin_updates:
  "filter is_pin_update (log (pair_finish proc e stdout w)) = filter is_pin_update (log w)"
  by (simp add: pair_finish_def Let_def emit_def terminate_def iscanceled_def
           split: option.splits prod.splits bool.splits)

lemma pair_finish_failed:
  assumes "\<not> cancelled_at e (cancel_checks w)"
    and "returncode_attr w = Some code"
    and "code \<noteq> 0"
  shows "log (pair_finish (Some (cmd, p)) e stdout w) =
           log w @ [Terminate cmd, Close] @
             (if contains stdout already_paired then [OkDialog ''Pairing'' already_paired_message] else [])"
  using assms by (simp add: pair_finish_def Let_def emit_def terminate_def iscanceled_def)

lemma pair_unfold:
  assumes "yesno_answer e"
    and "run_moonlight ''pair'' hostip False e
           (emit (YesNo ''Pairing'' ''Do you want to pair with a Gamestream host?'') w) = (proc, w2)"
  shows "pair fuel hostip e w =
           (case pair_loop fuel proc e [] False (emit (Create ''Pairing'' ''Launching pairing...'') w2) of
              Unfinished w3 \<Rightarrow> Unfinished w3
            | Returned (stdout, codeFlag) w3 \<Rightarrow> Returned () (pair_finish proc e stdout w3))"
  using assms by (simp add: pair_def Let_def)


lemma pair_start:
  assumes "hostip \<noteq> [] \<or> host_found e"
  obtains w2 where
    "run_moonlight ''pair'' hostip False e
       (emit (YesNo ''Pairing'' ''Do you want to pair with a Gamestream host?'') fresh)
       = (Some (moonlight_cmd ''pair'' hostip, spawn e (moonlight_cmd ''pair'' hostip)), w2)"
    and "polls (emit (Create ''Pairing'' ''Launching pairing...'') w2) = 0"
    and "cancel_checks (emit (Create ''Pairing'' ''Launching pairing...'') w2) = 0"
    and "read_calls (emit (Create ''Pairing'' ''Launching pairing...'') w2) = 0"
    and "\<forall>ev\<in>set (log (emit (Create ''Pairing'' ''Launching pairing...'') w2)). \<not> is_update ev"
proof -
  let ?w = "emit (YesNo ''Pairing'' ''Do you want to pair with a Gamestream host?'') fresh"
  obtain w2 where r: "run_moonlight ''pair'' hostip False e ?w
       = (Some (moonlight_cmd ''pair'' hostip, spawn e (moonlight_cmd ''pair'' hostip)), w2)"
    and c: "polls w2 = polls ?w" "cancel_checks w2 = cancel_checks ?w" "read_calls w2 = read_calls ?w"
    and l: "\<forall>ev\<in>set (log w2). ev \<in> set (log ?w) \<or> \<not> is_update ev"
    using run_moonlight_launched [OF assms, of "''pair''" False ?w] by blast
  have "\<forall>ev\<in>set (log w2). \<not> is_update ev"
    using l by (auto simp: emit_def fresh_def)
  then have "\<forall>ev\<in>set (log (emit (Create ''Pairing'' ''Launching pairing...'') w2)). \<not> is_update ev"
    by (auto simp: emit_def)
  then show ?thesis
    using that [OF r] c by (simp add: emit_def fresh_def)
qed

text \<open>
  Claim C5. When the text accumulated from the reads matches the PIN pattern for the first
  time at turn \<open>k\<close> of the loop (whatever the cut of the text into reads), the session
  issues exactly one update at 50 percent, whose message embeds the digits extracted at that
  turn, and no later turn issues another one: this holds after every number of turns
  beyond \<open>k\<close>, whether the loop has been left or is still turning.
\<close>

theorem pin_disclosed_exactly_once:
  assumes "yesno_answer e"
    and "hostip \<noteq> [] \<or> host_found e"
    and "p = spawn e (moonlight_cmd ''pair'' hostip)"
    and "running_at p k"
    and "\<not> cancelled_at e k"
    and "search_pin (accumulated p (Suc k)) = Some code"
    and "\<forall>j<k. search_pin (accumulated p (Suc j)) = None"
    and "k < fuel"
  shows "filter is_pin_update (log (world_of (pair fuel hostip e fresh))) = [Update 50 (pin_message code)]"
proof -
  let ?c = "moonlight_cmd ''pair'' hostip"
  obtain w2 where r: "run_moonlight ''pair'' hostip False e
       (emit (YesNo ''Pairing'' ''Do you want to pair with a Gamestream host?'') fresh)
       = (Some (?c, spawn e ?c), w2)"
    and c: "polls (emit (Create ''Pairing'' ''Launching pairing...'') w2) = 0"
           "cancel_checks (emit (Create ''Pairing'' ''Launching pairing...'') w2) = 0"
           "read_calls (emit (Create ''Pairing'' ''Launching pairing...'') w2) = 0"
    and l: "\<forall>ev\<in>set (log (emit (Create ''Pairing'' ''Launching pairing...'') w2)). \<not> is_update ev"
    using pair_start [OF assms(2)] by blast
  let ?w = "emit (Create ''Pairing'' ''Launching pairing...'') w2"
  let ?R = "pair_loop fuel (Some (?c, p)) e [] False ?w"
  have none: "filter is_pin_update (log ?w) = []"
    using l is_pin_update_is_update by (auto simp: filter_empty_conv)
  have h1: "running_at p (polls ?w + k)" using assms(4) c by simp
  have h2: "\<not> cancelled_at e (cancel_checks ?w + k)" using assms(5) c by simp
  have h3: "search_pin (accumulated_from p [] (read_calls ?w) (Suc k)) = Some code"
    using assms(6) c by (simp add: accumulated_def)
  have h4: "\<forall>j<k. search_pin (accumulated_from p [] (read_calls ?w) (Suc j)) = None"
    using assms(7) c by (simp add: accumulated_def)
  have loop: "log (world_of ?R) = log ?w @ [Update 50 (pin_message code)]"
    by (rule pair_loop_first_match [OF h1 h2 h3 h4 assms(8)])
  have "filter is_pin_update (log (world_of (pair fuel hostip e fresh))) = filter is_pin_update (log (world_of ?R))"
    unfolding pair_unfold [OF assms(1) r] assms(3) [symmetric]
    by (cases ?R) (auto simp: pair_finish_pin_updates)
  then show ?thesis
    using loop none by simp
qed

text \<open>Claim C5 on a PIN line that arrives in two reads, cut in the middle of the sentence.\<close>

theorem pin_disclosed_exactly_once_witness:
  "filter is_pin_update (log (world_of (pair 10 [] pin_session fresh)))
     = [Update 50 ''Please enter authentication code 4821 on Gamestream host'']"
proof -
  have y: "yesno_answer pin_session" by (simp add: pin_session_def patient_user_def)
  have h: "[] \<noteq> ([]::string) \<or> host_found pin_session" by (simp add: pin_session_def patient_user_def)
  have p: "pin_child = spawn pin_session (moonlight_cmd ''pair'' [])" by (simp add: pin_session_def)
  have r: "running_at pin_child 1" by (simp add: running_at_def pin_child_def)
  have n: "\<not> cancelled_at pin_session 1" by (simp add: cancelled_at_def pin_session_def patient_user_def)
  have a2: "accumulated pin_child (Suc 1) = ''Please enter the following PIN on the target PC: 4821\<newline>''"
    by (simp add: accumulated_def pin_child_def)
  have a1: "accumulated pin_child (Suc 0) = ''Please enter the following PIN on the''"
    by (simp add: accumulated_def pin_child_def)
  have m: "search_pin (accumulated pin_child (Suc 1)) = Some ''4821''"
    unfolding a2 by (simp add: starts_with_def pin_prefix_def is_digit_def)
  have m0: "search_pin (accumulated pin_child (Suc 0)) = None"
    unfolding a1 by (simp add: starts_with_def pin_prefix_def)
  have f: "\<forall>j<1. search_pin (accumulated pin_child (Suc j)) = None"
    using m0 by simp
  have k: "(1::nat) < 10" by simp
  show ?thesis
    using pin_disclosed_exactly_once [OF y h p r n m f k] by (simp add: pin_message_def)
qed


lemma pair_loop_left:
  assumes "loop_left_after p e k"
    and "polls w = 0" and "cancel_checks w = 0" and "read_calls w = 0"
    and "k < fuel"
  shows "\<exists>codeFlag1 w1. pair_loop fuel (Some (cmd, p)) e [] False w = Returned (accumulated p k, codeFlag1) w1"
proof -
  from assms(1) consider
      (exit) "exits_after p = Some k" "\<forall>j<k. \<not> cancelled_at e j"
    | (cancel) "cancelled_from e = Some k" "running_at p k"
    unfolding loop_left_after_def by blast
  then show ?thesis
  proof cases
    case exit
    have a: "exits_after p = Some (polls w + k)" using exit(1) assms(2) by simp
    have b: "\<forall>j<k. \<not> cancelled_at e (cancel_checks w + j)" using exit(2) assms(3) by simp
    show ?thesis
      using pair_loop_exit [OF a b assms(5), of cmd "[]" False] assms(4)
      by (auto simp: accumulated_def)
  next
    case cancel
    have a: "cancelled_from e = Some (cancel_checks w + k)" using cancel(1) assms(3) by simp
    have b: "running_at p (polls w + k)" using cancel(2) assms(2) by simp
    show ?thesis
      using pair_loop_cancel [OF a b assms(5), of cmd "[]" False] assms(4)
      by (auto simp: accumulated_def)
  qed
qed

text \<open>
  Claim C10. Whichever way the loop is left, by the exit of the child with any code or by
  a cancellation, the session ends with the informational dialog whenever the accumulated
  text contains the "already paired" line.
\<close>

theorem already_paired_on_every_exit_path:
  assumes "yesno_answer e"
    and "hostip \<noteq> [] \<or> host_found e"
    and "p = spawn e (moonlight_cmd ''pair'' hostip)"
    and "loop_left_after p e k"
    and "k < fuel"
    and "contains (accumulated p k) already_paired"
  shows "result_of (pair fuel hostip e fresh) = Some ()
         \<and> last (log (world_of (pair fuel hostip e fresh))) = OkDialog ''Pairing'' already_paired_message"
proof -
  let ?c = "moonlight_cmd ''pair'' hostip"
  obtain w2 where r: "run_moonlight ''pair'' hostip False e
       (emit (YesNo ''Pairing'' ''Do you want to pair with a Gamestream host?'') fresh)
       = (Some (?c, spawn e ?c), w2)"
    and c: "polls (emit (Create ''Pairing'' ''Launching pairing...'') w2) = 0"
           "cancel_checks (emit (Create ''Pairing'' ''Launching pairing...'') w2) = 0"
           "read_calls (emit (Create ''Pairing'' ''Launching pairing...'') w2) = 0"
    using pair_start [OF assms(2)] by blast
  let ?w = "emit (Create ''Pairing'' ''Launching pairing...'') w2"
  obtain codeFlag1 w3 where
    loop: "pair_loop fuel (Some (?c, p)) e [] False ?w = Returned (accumulated p k, codeFlag1) w3"
    using pair_loop_left [OF assms(4) c assms(5)] by blast
  show ?thesis
    unfolding pair_unfold [OF assms(1) r] assms(3) [symmetric] loop
    using assms(6) by (simp add: pair_finish_last)
qed

text \<open>
  Claim C8. When the pairing child exits with a code other than 0, the dialog is not
  cancelled, and the accumulated text contains the "already paired" line, the session ends
  with the informational dialog; completion is not reported.
\<close>

theorem already_paired_after_failure:
  assumes "yesno_answer e"
    and "hostip \<noteq> [] \<or> host_found e"
    and "p = spawn e (moonlight_cmd ''pair'' hostip)"
    and "exits_after p = Some n"
    and "returncode p \<noteq> 0"
    and "\<not> cancelled_at e n"
    and "n < fuel"
    and "contains (accumulated p n) already_paired"
  shows "result_of (pair fuel hostip e fresh) = Some ()
         \<and> last (log (world_of (pair fuel hostip e fresh))) = OkDialog ''Pairing'' already_paired_message
         \<and> Update 100 ''Complete!'' \<notin> set (log (world_of (pair fuel hostip e fresh)))"
proof -
  let ?c = "moonlight_cmd ''pair'' hostip"
  obtain w2 where r: "run_moonlight ''pair'' hostip False e
       (emit (YesNo ''Pairing'' ''Do you want to pair with a Gamestream host?'') fresh)
       = (Some (?c, spawn e ?c), w2)"
    and c: "polls (emit (Create ''Pairing'' ''Launching pairing...'') w2) = 0"
           "cancel_checks (emit (Create ''Pairing'' ''Launching pairing...'') w2) = 0"
           "read_calls (emit (Create ''Pairing'' ''Launching pairing...'') w2) = 0"
    and l: "\<forall>ev\<in>set (log (emit (Create ''Pairing'' ''Launching pairing...'') w2)). \<not> is_update ev"
    using pair_start [OF assms(2)] by blast
  let ?w = "emit (Create ''Pairing'' ''Launching pairing...'') w2"
  have a: "exits_after p = Some (polls ?w + n)" using assms(4) c by simp
  have nb: "\<forall>j<n. \<not> cancelled_at e j"
    using assms(6) cancelled_at_mono [of e _ n] by (meson less_imp_le_nat)
  have b: "\<forall>j<n. \<not> cancelled_at e (cancel_checks ?w + j)"
    using nb c by simp
  obtain codeFlag1 w3 where
    loop: "pair_loop fuel (Some (?c, p)) e [] False ?w = Returned (accumulated p n, codeFlag1) w3"
    and cc: "cancel_checks w3 = n" and rc: "returncode_attr w3 = Some (returncode p)"
    using pair_loop_exit [OF a b assms(7), of ?c "[]" False] c by (auto simp: accumulated_def)
  have nc: "\<not> cancelled_at e (cancel_checks w3)" using assms(6) cc by simp
  have fin: "log (pair_finish (Some (?c, p)) e (accumulated p n) w3) =
               log w3 @ [Terminate ?c, Close, OkDialog ''Pairing'' already_paired_message]"
    using pair_finish_failed [OF nc rc assms(5)] assms(8) by simp
  have "Update 100 ''Complete!'' \<notin> set (log w3)"
  proof
    assume "Update 100 ''Complete!'' \<in> set (log w3)"
    then have "Update 100 ''Complete!'' \<in> set (log (world_of (pair_loop fuel (Some (?c, p)) e [] False ?w)))"
      by (simp add: loop)
    then have "Update 100 ''Complete!'' \<in> set (log ?w) \<or> is_pin_update (Update 100 ''Complete!'')"
      by (rule pair_loop_log)
    then show False using l by auto
  qed
  then show ?thesis
    unfolding pair_unfold [OF assms(1) r] assms(3) [symmetric] loop
    by (simp add: fin)
qed

lemma contains_refusal: "contains ''Failed to pair to server: Already paired\<newline>'' already_paired"
  by (simp add: already_paired_def starts_with_def)

text \<open>Claim C8 on a child that prints the line and exits with code 1.\<close>

theorem already_paired_after_failure_witness:
  "result_of (pair 5 ''192.168.1.20'' refused_session fresh) = Some ()
   \<and> last (log (world_of (pair 5 ''192.168.1.20'' refused_session fresh)))
       = OkDialog ''Pairing'' ''Gamestream credentials already exist for this host.''
   \<and> Update 100 ''Complete!'' \<notin> set (log (world_of (pair 5 ''192.168.1.20'' refused_session fresh)))"
proof -
  have y: "yesno_answer refused_session" by (simp add: refused_session_def patient_user_def)
  have h: "''192.168.1.20'' \<noteq> [] \<or> host_found refused_session" by simp
  have p: "refused_child = spawn refused_session (moonlight_cmd ''pair'' ''192.168.1.20'')"
    by (simp add: refused_session_def)
  have x: "exits_after refused_child = Some 2" by (simp add: refused_child_def)
  have z: "returncode refused_child \<noteq> 0" by (simp add: refused_child_def)
  have n: "\<not> cancelled_at refused_session 2"
    by (simp add: cancelled_at_def refused_session_def patient_user_def)
  have f: "(2::nat) < 5" by simp
  have a: "accumulated refused_child 2 = ''Failed to pair to server: Already paired\<newline>''"
    by (simp add: accumulated_def refused_child_def numeral_2_eq_2)
  have c: "contains (accumulated refused_child 2) already_paired"
    unfolding a by (rule contains_refusal)
  show ?thesis
    using already_paired_after_failure [OF y h p x z n f c] by (simp add: already_paired_message_def)
qed

text \<open>Claim C10 on a child that exits with code 0, and on a session that the user cancels.\<close>

theorem already_paired_on_every_exit_path_witness:
  "last (log (world_of (pair 5 ''192.168.1.20'' refused_exit0_session fresh)))
     = OkDialog ''Pairing'' ''Gamestream credentials already exist for this host.''
   \<and> last (log (world_of (pair 5 ''192.168.1.20'' refused_cancelled_session fresh)))
     = OkDialog ''Pairing'' ''Gamestream credentials already exist for this host.''"
proof -
  let ?p0 = "refused_child\<lparr>returncode := 0\<rparr>"
  have y0: "yesno_answer refused_exit0_session" by (simp add: refused_exit0_session_def patient_user_def)
  have h0: "''192.168.1.20'' \<noteq> [] \<or> host_found refused_exit0_session" by simp
  have p0: "?p0 = spawn refused_exit0_session (moonlight_cmd ''pair'' ''192.168.1.20'')"
    by (simp add: refused_exit0_session_def)
  have l0: "loop_left_after ?p0 refused_exit0_session 2"
    by (simp add: loop_left_after_def refused_child_def cancelled_at_def refused_exit0_session_def patient_user_def)
  have a0: "accumulated ?p0 2 = ''Failed to pair to server: Already paired\<newline>''"
    by (simp add: accumulated_def refused_child_def numeral_2_eq_2)
  have c0: "contains (accumulated ?p0 2) already_paired"
    unfolding a0 by (rule contains_refusal)
  have y1: "yesno_answer refused_cancelled_session" by (simp add: refused_cancelled_session_def patient_user_def)
  have h1: "''192.168.1.20'' \<noteq> [] \<or> host_found refused_cancelled_session" by simp
  have p1: "refused_child = spawn refused_cancelled_session (moonlight_cmd ''pair'' ''192.168.1.20'')"
    by (simp add: refused_cancelled_session_def)
  have l1: "loop_left_after refused_child refused_cancelled_session 1"
    by (simp add: loop_left_after_def refused_child_def running_at_def refused_cancelled_session_def)
  have a1: "accumulated refused_child 1 = ''Failed to pair to server: Already paired\<newline>''"
    by (simp add: accumulated_def refused_child_def)
  have c1: "contains (accumulated refused_child 1) already_paired"
    unfolding a1 by (rule contains_refusal)
  have f2: "(2::nat) < 5" and f1: "(1::nat) < 5" by simp_all
  show ?thesis
    using already_paired_on_every_exit_path [OF y0 h0 p0 l0 f2 c0] already_paired_on_every_exit_path [OF y1 h1 p1 l1 f1 c1]
    by (simp add: already_paired_message_def)
qed

section \<open>Properties of \<open>load_installed_games\<close>\<close>

lemma wait_or_cancel_exit_from:
  assumes "exits_after p = Some n"
    and "\<forall>k<n. \<not> cancelled_at e k"
    and "n < fuel"
    and "polls w = 0" and "cancel_checks w = 0"
  shows "\<exists>w1. wait_or_cancel fuel (Some (cmd, p)) title message e w =
                 Returned (if cancelled_at e n then (1, None)
                           else case final_output p of
                                  None \<Rightarrow> (- 1, Some [])
                                | Some msg \<Rightarrow> (returncode p, Some msg)) w1"
proof -
  let ?w = "emit (Create title []) w"
  have a: "exits_after p = Some (polls ?w + n)" using assms(1,4) by (simp add: emit_def)
  have b: "\<forall>k<n. \<not> cancelled_at e (cancel_checks ?w + k)" using assms(2,5) by (simp add: emit_def)
  show ?thesis
    unfolding wait_or_cancel_def wait_loop_exit [OF a b assms(3)]
    using assms(1,5)
    by (simp add: emit_def iscanceled_def communicate_def terminate_def split: option.splits)
qed

lemma run_moonlight_handle:
  "run_moonlight mode hostip blockio e w = (Some h, w1) \<Longrightarrow>
   h = (moonlight_cmd mode hostip, spawn e (moonlight_cmd mode hostip))"
  by (auto simp: run_moonlight_def Let_def host_check_def subprocess_runner_def
           split: if_splits bool.splits prod.splits)

lemma wait_or_cancel_zero_output:
  "wait_or_cancel fuel (Some (cmd, p)) title message e w = Returned (0, Some text) w2 \<Longrightarrow>
   text \<noteq> [] \<Longrightarrow> final_output p = Some text"
  by (auto simp: wait_or_cancel_def communicate_def
           split: run.splits prod.splits bool.splits option.splits if_splits)

lemma load_installed_games_filters:
  assumes "result_of (load_installed_games fuel hostip e w) = Some (Some games)"
  shows "\<exists>text. final_output (spawn e (moonlight_cmd ''list'' hostip)) = Some text
              \<and> games = filter begins_with_integer_period (splitlines text)"
proof -
  obtain proc w1 where r: "run_moonlight ''list'' hostip True e w = (proc, w1)"
    by (cases "run_moonlight ''list'' hostip True e w") auto
  show ?thesis
  proof (cases proc)
    case None
    then show ?thesis using assms r by (simp add: load_installed_games_def)
  next
    case (Some h)
    have h: "h = (moonlight_cmd ''list'' hostip, spawn e (moonlight_cmd ''list'' hostip))"
      using r Some by (auto dest: run_moonlight_handle)
    let ?W = "wait_or_cancel fuel (Some h) ''List'' ''Getting available games...'' e w1"
    show ?thesis
    proof (cases ?W)
      case (Unfinished w2)
      then show ?thesis using assms r Some by (simp add: load_installed_games_def)
    next
      case (Returned res w2)
      obtain status result where res: "res = (status, result)" by (cases res)
      from assms r Some Returned res obtain out where
        t: "result = Some out" "status = 0" "out \<noteq> []" "games = gamelist_of out"
        by (auto simp: load_installed_games_def split: option.splits if_splits)
      have "final_output (spawn e (moonlight_cmd ''list'' hostip)) = Some out"
        using Returned res t(1,2,3) wait_or_cancel_zero_output unfolding h by blast
      then show ?thesis
        using t(4) by (simp add: gamelist_of_def search_game_entry_eq)
    qed
  qed
qed

lemma load_installed_games_succeeds:
  assumes "hostip \<noteq> [] \<or> host_found e"
    and "exits_after (spawn e (moonlight_cmd ''list'' hostip)) = Some n"
    and "returncode (spawn e (moonlight_cmd ''list'' hostip)) = 0"
    and "\<not> cancelled_at e n"
    and "final_output (spawn e (moonlight_cmd ''list'' hostip)) = Some text"
    and "text \<noteq> []"
    and "n < fuel"
  shows "result_of (load_installed_games fuel hostip e fresh) = Some (Some (gamelist_of text))"
proof -
  let ?c = "moonlight_cmd ''list'' hostip"
  obtain w1 where r: "run_moonlight ''list'' hostip True e fresh = (Some (?c, spawn e ?c), w1)"
    and c: "polls w1 = polls fresh" "cancel_checks w1 = cancel_checks fresh"
    using run_moonlight_launched [OF assms(1), of "''list''" True fresh] by blast
  have z: "polls w1 = 0" "cancel_checks w1 = 0" using c by (simp_all add: fresh_def)
  have nb: "\<forall>k<n. \<not> cancelled_at e k"
    using assms(4) cancelled_at_mono [of e _ n] by (meson less_imp_le_nat)
  obtain w2 where
    "wait_or_cancel fuel (Some (?c, spawn e ?c)) ''List'' ''Getting available games...'' e w1
       = Returned (0, Some text) w2"
    using wait_or_cancel_exit_from [OF assms(2) nb assms(7) z, of ?c "''List''" "''Getting available games...''"]
          assms(3,4,5) by auto
  then show ?thesis
    using r assms(6) by (simp add: load_installed_games_def)
qed

text \<open>
  Claim C9. Whenever \<open>load_installed_games\<close> returns a game list, the list consists of
  exactly the lines of the output of the list command that begin with an integer followed by
  a period, in their order, every other line being dropped; it does return that list when
  the child is started, exits with code 0 without a cancellation and its output is decoded
  and not empty. On the five lines of the specification's example the filter keeps the two
  game entries.
\<close>

theorem game_list_keeps_numbered_lines:
  "(result_of (load_installed_games fuel hostip e w) = Some (Some games) \<longrightarrow>
      (\<exists>text. final_output (spawn e (moonlight_cmd ''list'' hostip)) = Some text
             \<and> games = filter begins_with_integer_period (splitlines text)))
   \<and> ((hostip \<noteq> [] \<or> host_found e)
        \<and> exits_after (spawn e (moonlight_cmd ''list'' hostip)) = Some n
        \<and> returncode (spawn e (moonlight_cmd ''list'' hostip)) = 0
        \<and> \<not> cancelled_at e n
        \<and> final_output (spawn e (moonlight_cmd ''list'' hostip)) = Some output
        \<and> output \<noteq> [] \<and> n < fuel \<longrightarrow>
      result_of (load_installed_games fuel hostip e fresh)
        = Some (Some (filter begins_with_integer_period (splitlines output))))
   \<and> filter search_game_entry [''===='', ''Searching...'', ''1. MarioKart8'', ''2. Dolphin'', ''garbage'']
       = [''1. MarioKart8'', ''2. Dolphin'']"
proof (intro conjI impI)
  assume "result_of (load_installed_games fuel hostip e w) = Some (Some games)"
  then show "\<exists>text. final_output (spawn e (moonlight_cmd ''list'' hostip)) = Some text
                  \<and> games = filter begins_with_integer_period (splitlines text)"
    by (rule load_installed_games_filters)
next
  assume a: "(hostip \<noteq> [] \<or> host_found e)
        \<and> exits_after (spawn e (moonlight_cmd ''list'' hostip)) = Some n
        \<and> returncode (spawn e (moonlight_cmd ''list'' hostip)) = 0
        \<and> \<not> cancelled_at e n
        \<and> final_output (spawn e (moonlight_cmd ''list'' hostip)) = Some output
        \<and> output \<noteq> [] \<and> n < fuel"
  then have "result_of (load_installed_games fuel hostip e fresh) = Some (Some (gamelist_of output))"
    using load_installed_games_succeeds by blast
  then show "result_of (load_installed_games fuel hostip e fresh)
        = Some (Some (filter begins_with_integer_period (splitlines output)))"
    by (simp add: gamelist_of_def search_game_entry_eq)
next
  show "filter search_game_entry [''===='', ''Searching...'', ''1. MarioKart8'', ''2. Dolphin'', ''garbage'']
       = [''1. MarioKart8'', ''2. Dolphin'']"
    by (simp add: search_game_entry_def is_digit_def)
qed

lemma listing_lines:
  "splitlines listing_text = [''===='', ''Searching...'', ''1. MarioKart8'', ''2. Dolphin'', ''garbage'']"
  unfolding listing_text_def by code_simp

text \<open>Claim C9 on a list command whose output is the five lines of the example.\<close>

theorem game_list_keeps_numbered_lines_witness:
  "splitlines listing_text = [''===='', ''Searching...'', ''1. MarioKart8'', ''2. Dolphin'', ''garbage'']
   \<and> result_of (load_installed_games 3 ''192.168.1.20'' list_session fresh)
       = Some (Some [''1. MarioKart8'', ''2. Dolphin''])"
proof -
  have h: "(''192.168.1.20'' \<noteq> [] \<or> host_found list_session)
        \<and> exits_after (spawn list_session (moonlight_cmd ''list'' ''192.168.1.20'')) = Some 2
        \<and> returncode (spawn list_session (moonlight_cmd ''list'' ''192.168.1.20'')) = 0
        \<and> \<not> cancelled_at list_session 2
        \<and> final_output (spawn list_session (moonlight_cmd ''list'' ''192.168.1.20'')) = Some listing_text
        \<and> listing_text \<noteq> [] \<and> (2::nat) < 3"
    by (simp add: list_session_def listing_child_def patient_user_def cancelled_at_def listing_text_def)
  have f: "filter begins_with_integer_period [''===='', ''Searching...'', ''1. MarioKart8'', ''2. Dolphin'', ''garbage'']
             = [''1. MarioKart8'', ''2. Dolphin'']"
    unfolding search_game_entry_eq [symmetric]
    by (simp add: search_game_entry_def is_digit_def)
  have "result_of (load_installed_games 3 ''192.168.1.20'' list_session fresh)
          = Some (Some (filter begins_with_integer_period (splitlines listing_text)))"
    using game_list_keeps_numbered_lines [of 3 "''192.168.1.20''" list_session fresh "[]" 2 listing_text] h by blast
  then show ?thesis
    unfolding listing_lines f by simp
qed

end
